theory Spec2Isabelle
  imports Main
begin

section \<open>JavaScript values\<close>

text \<open>
  Strings are lists of characters; a character stands for the code unit of the same
  number, so the strings here are the JavaScript strings over U+0000 to U+00FF. An
  optional value is \<open>None\<close> where JavaScript has \<open>undefined\<close>. A string is falsy exactly when it is empty, so an optional string is
  truthy when it is present and not empty. An exception is a value of \<open>js_error\<close>; a
  computation that can throw returns \<open>js_error + 'a\<close> with \<open>Inl\<close> for the throw.
\<close>

datatype js_error = TypeError | SyntaxError | IOError | HostError

definition truthy :: "string option \<Rightarrow> bool" where
  "truthy v = (case v of None \<Rightarrow> False | Some s \<Rightarrow> s \<noteq> [])"

definition startsWith :: "string \<Rightarrow> string \<Rightarrow> bool" where
  "startsWith s p = (take (length p) s = p)"

definition endsWith :: "string \<Rightarrow> string \<Rightarrow> bool" where
  "endsWith s p = (length p \<le> length s \<and> drop (length s - length p) s = p)"

text \<open>\<open>xs[i]\<close>: \<open>undefined\<close> out of range.\<close>

definition nth_opt :: "'a list \<Rightarrow> nat \<Rightarrow> 'a option" where
  "nth_opt xs i = (if i < length xs then Some (xs ! i) else None)"

text \<open>\<open>s.split(c)\<close> for a separator of one character; the result is never empty.\<close>

fun split_on :: "char \<Rightarrow> string \<Rightarrow> string list" where
  "split_on c [] = [[]]"
| "split_on c (x # xs) =
     (if x = c then [] # split_on c xs
      else (case split_on c xs of [] \<Rightarrow> [[x]] | y # ys \<Rightarrow> (x # y) # ys))"

text \<open>\<open>xs.join(sep)\<close>.\<close>

fun join_with :: "string \<Rightarrow> string list \<Rightarrow> string" where
  "join_with sep [] = []"
| "join_with sep [x] = x"
| "join_with sep (x # y # ys) = x @ sep @ join_with sep (y # ys)"

text \<open>
  White space as \<open>\s\<close> and \<open>trimEnd\<close> see it, among these characters: tab, line feed,
  vertical tab, form feed, carriage return, space, and the no-break space U+00A0.
\<close>

definition is_space :: "char \<Rightarrow> bool" where
  "is_space c =
     (c \<in> set [CHR 0x09, CHR 0x0A, CHR 0x0B, CHR 0x0C, CHR 0x0D, CHR '' '', CHR 0xA0])"

text \<open>The bytes of a string in UTF-8: two bytes for a character from U+0080 on.\<close>

definition utf8_bytes :: "string \<Rightarrow> nat list" where
  "utf8_bytes s =
     concat (map (\<lambda>c. let n = (of_char c :: nat) in
                       if n < 128 then [n] else [192 + n div 64, 128 + n mod 64]) s)"

definition trimEnd :: "string \<Rightarrow> string" where
  "trimEnd s = rev (dropWhile is_space (rev s))"

definition after_last :: "char \<Rightarrow> string \<Rightarrow> string" where
  "after_last c s = rev (takeWhile (\<lambda>x. x \<noteq> c) (rev s))"

definition before_last :: "char \<Rightarrow> string \<Rightarrow> string" where
  "before_last c s = rev (drop 1 (dropWhile (\<lambda>x. x \<noteq> c) (rev s)))"

section \<open>Node's \<open>path\<close> module (POSIX)\<close>

text \<open>
  The functions of Node's \<open>path\<close> that the packages call, as \<open>path.posix\<close> computes
  them. The working directory, which \<open>path.resolve\<close> reads from the process, is an
  argument.
\<close>

definition strip_trailing_slashes :: "string \<Rightarrow> string" where
  "strip_trailing_slashes s = rev (dropWhile (\<lambda>c. c = CHR ''/'') (rev s))"

definition path_basename :: "string \<Rightarrow> string" where
  "path_basename p = after_last (CHR ''/'') (strip_trailing_slashes p)"

definition path_dirname :: "string \<Rightarrow> string" where
  "path_dirname p =
     (case p of
        [] \<Rightarrow> ''.''
      | c # cs \<Rightarrow>
          (let t = strip_trailing_slashes cs in
           if CHR ''/'' \<notin> set t then (if c = CHR ''/'' then ''/'' else ''.'')
           else (let pre = before_last (CHR ''/'') t in
                 if c = CHR ''/'' \<and> pre = [] then ''//'' else c # pre)))"

definition path_extname :: "string \<Rightarrow> string" where
  "path_extname p =
     (let b = path_basename p in
      if CHR ''.'' \<notin> set b then []
      else if before_last (CHR ''.'') b = [] \<or> b = ''..'' then []
      else CHR ''.'' # after_last (CHR ''.'') b)"

text \<open>
  \<open>normalizeString\<close>, segment by segment: empty segments and \<open>.\<close> are dropped, \<open>..\<close>
  removes the segment before it, or is kept when there is none to remove and the path
  is relative.
\<close>

fun normalizeString :: "bool \<Rightarrow> string list \<Rightarrow> string list \<Rightarrow> string list" where
  "normalizeString allowAboveRoot [] res = res"
| "normalizeString allowAboveRoot (seg # segs) res =
     normalizeString allowAboveRoot segs
       (if seg = [] \<or> seg = ''.'' then res
        else if seg = ''..'' then
          (if res \<noteq> [] \<and> last res \<noteq> ''..'' then butlast res
           else if allowAboveRoot then res @ [''..'']
           else res)
        else res @ [seg])"

definition path_normalize :: "string \<Rightarrow> string" where
  "path_normalize p =
     (if p = [] then ''.''
      else
        (let isAbsolute = (hd p = CHR ''/'');
             trailingSeparator = (last p = CHR ''/'');
             s = join_with ''/'' (normalizeString (\<not> isAbsolute) (split_on (CHR ''/'') p) [])
         in if s = [] then (if isAbsolute then ''/'' else if trailingSeparator then ''./'' else ''.'')
            else (if isAbsolute then ''/'' else []) @ s @ (if trailingSeparator then ''/'' else [])))"

definition path_join :: "string list \<Rightarrow> string" where
  "path_join args =
     (let parts = filter (\<lambda>a. a \<noteq> []) args in
      if parts = [] then ''.'' else path_normalize (join_with ''/'' parts))"

text \<open>
  \<open>path.resolve\<close> walks its arguments from the right, then the working directory,
  until the path is absolute. The list is given last argument first.
\<close>

fun resolve_loop :: "string list \<Rightarrow> string \<Rightarrow> string \<times> bool" where
  "resolve_loop [] resolvedPath = (resolvedPath, False)"
| "resolve_loop (p # ps) resolvedPath =
     (if p = [] then resolve_loop ps resolvedPath
      else if hd p = CHR ''/'' then (p @ ''/'' @ resolvedPath, True)
      else resolve_loop ps (p @ ''/'' @ resolvedPath))"

definition path_resolve :: "string \<Rightarrow> string list \<Rightarrow> string" where
  "path_resolve cwd args =
     (case resolve_loop (rev (cwd # args)) [] of
        (resolvedPath, resolvedAbsolute) \<Rightarrow>
          (let s = join_with ''/''
                     (normalizeString (\<not> resolvedAbsolute) (split_on (CHR ''/'') resolvedPath) [])
           in if resolvedAbsolute then CHR ''/'' # s
              else if s \<noteq> [] then s else ''.''))"

section \<open>Query-string markers\<close>

text \<open>
  Modelled from the spec: the search-parameter helpers \<open>hasSearchParam\<close> and
  \<open>appendSearchParam\<close> come from the package \<open>@chialab/node-resolve\<close>, which is not
  among the sources. The spec gives the markers as \<open>?emit=file\<close> and
  \<open>?emit=chunk&transform=<url-encoded JSON>\<close>: the parameters follow \<open>?\<close>, separated by
  \<open>&\<close>, each a name, \<open>=\<close> and the percent-encoded value; a specifier carries a
  parameter when its query has an entry of that name. The spec does not say what becomes
  of a parameter of the same name that the specifier already carries. In
  \<open>appendSearchParam\<close> the new value replaces it, as the \<open>set\<close> of a
  \<open>URLSearchParams\<close> does; in \<open>appendSearchParam_keeping\<close> it stays and the new entry
  follows at the end. The functions of the emit plugin below take the helpers as
  arguments, so that what is proved of them holds for any implementation with the stated
  contract.
\<close>

definition unreserved :: "char \<Rightarrow> bool" where
  "unreserved c =
     (let n = (of_char c :: nat) in
      (48 \<le> n \<and> n \<le> 57) \<or> (65 \<le> n \<and> n \<le> 90) \<or> (97 \<le> n \<and> n \<le> 122)
      \<or> c \<in> set ''-_.~'')"

definition hex_digit :: "nat \<Rightarrow> char" where
  "hex_digit n = ''0123456789ABCDEF'' ! (n mod 16)"

definition url_encode :: "string \<Rightarrow> string" where
  "url_encode s =
     concat (map (\<lambda>c. if unreserved c then [c]
                       else concat (map (\<lambda>b. [CHR ''%'', hex_digit (b div 16), hex_digit b])
                                     (utf8_bytes [c]))) s)"

definition searchParams :: "string \<Rightarrow> (string \<times> string) list" where
  "searchParams source =
     (if CHR ''?'' \<notin> set source then []
      else map (\<lambda>kv. (takeWhile (\<lambda>c. c \<noteq> CHR ''='') kv, drop 1 (dropWhile (\<lambda>c. c \<noteq> CHR ''='') kv)))
             (filter (\<lambda>kv. kv \<noteq> [])
                (split_on (CHR ''&'') (drop 1 (dropWhile (\<lambda>c. c \<noteq> CHR ''?'') source)))))"

definition hasSearchParam :: "string \<Rightarrow> string \<Rightarrow> bool" where
  "hasSearchParam source param = (param \<in> set (map fst (searchParams source)))"

text \<open>
  The first entry of the name takes the new value and later entries of the name go; with
  no such entry the new one is added at the end.
\<close>

fun set_param :: "string \<Rightarrow> string \<Rightarrow> (string \<times> string) list \<Rightarrow> (string \<times> string) list" where
  "set_param k v [] = [(k, v)]"
| "set_param k v (kv # kvs) =
     (if fst kv = k then (k, v) # filter (\<lambda>e. fst e \<noteq> k) kvs
      else kv # set_param k v kvs)"

definition appendSearchParam :: "string \<Rightarrow> string \<Rightarrow> string \<Rightarrow> string" where
  "appendSearchParam source param v =
     takeWhile (\<lambda>c. c \<noteq> CHR ''?'') source @ ''?''
       @ join_with ''&''
           (map (\<lambda>kv. fst kv @ ''='' @ snd kv)
              (set_param param (url_encode v) (searchParams source)))"


section \<open>The emit plugin (\<open>esbuild-plugin-emit\<close>)\<close>

datatype Format = iife | cjs | esm

record EmitTransformOptions =
  format :: "Format option"


definition emitFile ::
  "(string \<Rightarrow> string \<Rightarrow> bool) \<Rightarrow> (string \<Rightarrow> string \<Rightarrow> string \<Rightarrow> string) \<Rightarrow> string \<Rightarrow> string" where
  "emitFile has_param append_param source =
     (if has_param source ''emit'' then source
      else append_param source ''emit'' ''file'')"


text \<open>
  The metafile of a build: \<open>outputs\<close> is an object from output paths to their
  metadata, here the list of its entries in the order \<open>Object.keys\<close> lists them; of the
  metadata only \<open>entryPoint\<close> is read.
\<close>

record output_meta =
  entryPoint :: "string option"

type_synonym metafile_outputs = "(string \<times> output_meta) list"

record build_result =
  metafile :: "metafile_outputs option"

record BuildOptions =
  entryPoints :: "string list"
  outfile :: "string option"
  outdir :: "string option"
  metafile_option :: "bool option"
  format_option :: "Format option"

record load_result =
  load_contents :: string
  load_loader :: string

text \<open>\<open>outputs[output].entryPoint\<close>.\<close>

definition output_entryPoint :: "metafile_outputs \<Rightarrow> string \<Rightarrow> string option" where
  "output_entryPoint outputs output =
     (case map_of outputs output of None \<Rightarrow> None | Some m \<Rightarrow> entryPoint m)"

text \<open>
  The path the load hook of the \<open>emit-chunk\<close> namespace reads after the build returned a
  metafile: the two filters, \<open>find\<close>, and \<open>|| outputFiles[0]\<close>, which also takes over
  when the path found is the empty string. \<open>None\<close> is \<open>undefined\<close>. The outputs that
  reach \<open>find\<close> have an entry point, so its \<open>None\<close> case is never taken.
\<close>

definition select_output :: "string \<Rightarrow> string \<Rightarrow> metafile_outputs \<Rightarrow> string option" where
  "select_output cwd filePath outputs =
     (let outputFiles = map fst outputs;
          found =
            find (\<lambda>output.
                    case output_entryPoint outputs output of
                      None \<Rightarrow> False
                    | Some e \<Rightarrow> filePath = path_resolve cwd [e])
              (filter (\<lambda>output. truthy (output_entryPoint outputs output))
                 (filter (\<lambda>output. \<not> endsWith output ''.map'') outputFiles))
      in if truthy found then found else nth_opt outputFiles 0)"

text \<open>\<open>options.outdir || path.dirname(options.outfile)\<close>, computed once in \<open>setup\<close>.\<close>

definition setup_outdir :: "BuildOptions \<Rightarrow> js_error + string" where
  "setup_outdir options =
     (if truthy (outdir options) then Inr (the (outdir options))
      else (case outfile options of None \<Rightarrow> Inl TypeError | Some f \<Rightarrow> Inr (path_dirname f)))"

definition chunk_config :: "BuildOptions \<Rightarrow> EmitTransformOptions \<Rightarrow> string \<Rightarrow> string \<Rightarrow> BuildOptions" where
  "chunk_config options pluginData filePath dir =
     options\<lparr>format_option := (case format pluginData of None \<Rightarrow> format_option options | Some f \<Rightarrow> Some f),
             entryPoints := [filePath],
             outfile := None,
             outdir := Some dir,
             metafile_option := Some True\<rparr>"

text \<open>
  The load hook. The host's \<open>build\<close> and the file system (\<open>readFile\<close>) are arguments;
  either may throw, and the hook lets the exception through. \<open>readFile(undefined)\<close> is a
  \<open>TypeError\<close>.
\<close>

definition onLoad ::
  "(BuildOptions \<Rightarrow> js_error + build_result) \<Rightarrow> (string \<Rightarrow> js_error + string) \<Rightarrow> string
     \<Rightarrow> BuildOptions \<Rightarrow> string \<Rightarrow> string \<Rightarrow> EmitTransformOptions \<Rightarrow> js_error + load_result" where
  "onLoad build readFile cwd options dir filePath pluginData =
     (case build (chunk_config options pluginData filePath dir) of
        Inl e \<Rightarrow> Inl e
      | Inr result \<Rightarrow>
          (let filePath' =
                 (case metafile result of
                    Some outputs \<Rightarrow> select_output cwd filePath outputs
                  | None \<Rightarrow> Some filePath)
           in case filePath' of
                None \<Rightarrow> Inl TypeError
              | Some f \<Rightarrow>
                  (case readFile f of
                     Inl e \<Rightarrow> Inl e
                   | Inr bytes \<Rightarrow> Inr \<lparr>load_contents = bytes, load_loader = ''file''\<rparr>)))"

section \<open>The stylesheet resolver (\<open>postcss-dart-sass\<close>)\<close>

text \<open>
  \<open>alternatives\<close>; the list \<open>CSS_EXTENSIONS\<close> of \<open>@chialab/node-resolve\<close> is the
  argument \<open>exts\<close>. The loop runs over the entries the list had when it started.
\<close>

definition partial_name :: "string \<Rightarrow> string" where
  "partial_name r = path_join [path_dirname r, CHR ''_'' # path_basename r]"

definition alternatives :: "string list \<Rightarrow> string \<Rightarrow> string list" where
  "alternatives exts url =
     (let results = (if path_extname url \<noteq> [] then [url] else map (\<lambda>ext. url @ ext) exts) in
      if nth_opt (path_basename url) 0 \<noteq> Some (CHR ''_'')
      then results @ map partial_name results
      else results)"

text \<open>\<open>url.replace(/^(~|package:)/, '')\<close>.\<close>

definition strip_module_prefix :: "string \<Rightarrow> string" where
  "strip_module_prefix url =
     (if startsWith url ''~'' then drop 1 url
      else if startsWith url ''package:'' then drop (length ''package:'') url
      else url)"

definition toCheck :: "string list \<Rightarrow> string \<Rightarrow> string list" where
  "toCheck exts url =
     (let splitted = split_on (CHR ''/'') url in
      if length splitted = 1 then [url]
      else if nth_opt url 0 = Some (CHR ''@'') \<and> length splitted = 2 then [url]
      else alternatives exts url)"

text \<open>
  The loop over the candidates. \<open>styleResolve\<close> throws or returns a path; the loop
  assigns what it returns to \<open>url\<close> and stops when that is truthy. The result is the
  final value of \<open>url\<close>.
\<close>

fun try_candidates ::
  "(string \<Rightarrow> string \<Rightarrow> js_error + string) \<Rightarrow> string \<Rightarrow> string list \<Rightarrow> string \<Rightarrow> string" where
  "try_candidates styleResolve prev [] url = url"
| "try_candidates styleResolve prev (modCheck # rest) url =
     (case styleResolve modCheck prev of
        Inl ex \<Rightarrow> try_candidates styleResolve prev rest url
      | Inr found \<Rightarrow> if found \<noteq> [] then found else try_candidates styleResolve prev rest found)"

definition resolve_url ::
  "string list \<Rightarrow> (string \<Rightarrow> string \<Rightarrow> js_error + string) \<Rightarrow> string \<Rightarrow> string \<Rightarrow> string" where
  "resolve_url exts styleResolve url prev =
     (let url' = strip_module_prefix url in
      try_candidates styleResolve prev (toCheck exts url') url')"

datatype importer_result = Contents string | File string

text \<open>
  One call of \<open>nodeResolver\<close>: the list \<open>resolved\<close> of the instance goes in and comes
  out. The only call that can throw is inside the \<open>try\<close>, so there is no error result.
\<close>

definition nodeResolver ::
  "string list \<Rightarrow> (string \<Rightarrow> string \<Rightarrow> js_error + string) \<Rightarrow> string list \<Rightarrow> string \<Rightarrow> string
     \<Rightarrow> importer_result \<times> string list" where
  "nodeResolver exts styleResolve resolved url prev =
     (let url' = resolve_url exts styleResolve url prev in
      if url' \<in> set resolved then (Contents [], resolved)
      else (File url', resolved @ [url']))"

text \<open>A sequence of calls on one instance, from a given \<open>resolved\<close> list.\<close>

fun resolver_calls ::
  "string list \<Rightarrow> (string \<Rightarrow> string \<Rightarrow> js_error + string) \<Rightarrow> string list \<Rightarrow> (string \<times> string) list
     \<Rightarrow> importer_result list" where
  "resolver_calls exts styleResolve resolved [] = []"
| "resolver_calls exts styleResolve resolved ((url, prev) # calls) =
     (case nodeResolver exts styleResolve resolved url prev of
        (r, resolved') \<Rightarrow> r # resolver_calls exts styleResolve resolved' calls)"

section \<open>The transform pipeline\<close>

record source_map =
  version :: "nat option"
  sources :: "string list"
  names :: "string list"
  sourceRoot :: "string option"
  sourcesContent :: "string list option"
  mappings :: string
  map_file :: "string option"

text \<open>
  What the functions read from their surroundings: the working directory, the file
  system, and \<open>JSON.parse\<close> and \<open>JSON.stringify\<close> on source maps. \<open>JSON.parse\<close>
  throws (\<open>Inl\<close>) or returns a value, which the code takes for a source map; \<open>None\<close> is
  a falsy value such as \<open>null\<close>.
\<close>

record node_env =
  cwd :: string
  readFile :: "string \<Rightarrow> js_error + string"
  JSON_parse :: "string \<Rightarrow> js_error + source_map option"
  JSON_stringify :: "source_map \<Rightarrow> string"

definition parseSourcemap :: "node_env \<Rightarrow> string \<Rightarrow> js_error + source_map option" where
  "parseSourcemap env m = JSON_parse env m"

text \<open>\<open>Buffer.from(s).toString('base64')\<close>: the base64 text of the bytes of \<open>s\<close>.\<close>

definition base64_digit :: "nat \<Rightarrow> char" where
  "base64_digit n =
     ''ABCDEFGHIJKLMNOPQRSTUVWXYZabcdefghijklmnopqrstuvwxyz0123456789+/'' ! (n mod 64)"

fun base64_bytes :: "nat list \<Rightarrow> string" where
  "base64_bytes [] = []"
| "base64_bytes [a] =
     [base64_digit (a div 4), base64_digit ((a mod 4) * 16), CHR ''='', CHR ''='']"
| "base64_bytes [a, b] =
     [base64_digit (a div 4), base64_digit ((a mod 4) * 16 + b div 16),
      base64_digit ((b mod 16) * 4), CHR ''='']"
| "base64_bytes (a # b # c # rest) =
     [base64_digit (a div 4), base64_digit ((a mod 4) * 16 + b div 16),
      base64_digit ((b mod 16) * 4 + c div 64), base64_digit (c mod 64)] @ base64_bytes rest"

definition toBase64 :: "string \<Rightarrow> string" where
  "toBase64 s = base64_bytes (utf8_bytes s)"

text \<open>
  The separator \<open>/\n\/\/#\s*sourceMappingURL=/\<close> of \<open>split\<close>: \<open>match_marker s\<close> is the
  rest of \<open>s\<close> after a match that starts at its first character.
\<close>

definition strip_prefix :: "string \<Rightarrow> string \<Rightarrow> string option" where
  "strip_prefix p s = (if startsWith s p then Some (drop (length p) s) else None)"

definition match_marker :: "string \<Rightarrow> string option" where
  "match_marker s =
     (case strip_prefix [CHR 0x0A, CHR ''/'', CHR ''/'', CHR ''#''] s of
        None \<Rightarrow> None
      | Some t \<Rightarrow> strip_prefix ''sourceMappingURL='' (dropWhile is_space t))"

text \<open>The text before the first match, and the text after it (if there is a match).\<close>

fun before_marker :: "string \<Rightarrow> string" where
  "before_marker [] = []"
| "before_marker (c # cs) =
     (case match_marker (c # cs) of Some t \<Rightarrow> [] | None \<Rightarrow> c # before_marker cs)"

fun after_marker :: "string \<Rightarrow> string option" where
  "after_marker [] = None"
| "after_marker (c # cs) =
     (case match_marker (c # cs) of Some t \<Rightarrow> Some t | None \<Rightarrow> after_marker cs)"

text \<open>
  The first two elements of \<open>contents.trimEnd().split(...)\<close>: the second is absent when
  nothing matches, and ends where a second match starts.
\<close>

definition split_sourceMappingURL :: "string \<Rightarrow> string \<times> string option" where
  "split_sourceMappingURL contents =
     (let s = trimEnd contents in (before_marker s, map_option before_marker (after_marker s)))"

text \<open>
  The body of the \<open>try\<close> in \<open>loadSourcemap\<close>: it returns (\<open>Inr (Some r)\<close>), runs to its
  end without returning (\<open>Inr None\<close>), or throws. \<open>Buffer.from(undefined)\<close>, for a data
  URI with no comma, is a \<open>TypeError\<close>.
\<close>

definition loadSourcemap_try ::
  "node_env \<Rightarrow> string \<Rightarrow> string \<Rightarrow> string option \<Rightarrow> js_error + (string \<times> source_map option) option" where
  "loadSourcemap_try env code mapUrl filePath =
     (if startsWith mapUrl ''data:'' then
        (case nth_opt (split_on (CHR '','') mapUrl) 1 of
           None \<Rightarrow> Inl TypeError
         | Some payload \<Rightarrow>
             (case parseSourcemap env (toBase64 payload) of
                Inl e \<Rightarrow> Inl e
              | Inr m \<Rightarrow> Inr (Some (code, m))))
      else if truthy filePath then
        (case readFile env (path_resolve (cwd env) [path_dirname (the filePath), mapUrl]) of
           Inl e \<Rightarrow> Inl e
         | Inr content \<Rightarrow>
             (case parseSourcemap env content of
                Inl e \<Rightarrow> Inl e
              | Inr m \<Rightarrow> Inr (Some (code, m))))
      else Inr None)"

text \<open>\<open>try { body } catch { }\<close>: a throw of the body becomes running to the end.\<close>

definition catch_all :: "js_error + 'a option \<Rightarrow> js_error + 'a option" where
  "catch_all body = (case body of Inl e \<Rightarrow> Inr None | Inr r \<Rightarrow> Inr r)"

definition loadSourcemap ::
  "node_env \<Rightarrow> string \<Rightarrow> string option \<Rightarrow> js_error + (string \<times> source_map option)" where
  "loadSourcemap env contents filePath =
     (case split_sourceMappingURL contents of
        (code, mapUrl) \<Rightarrow>
          (case (if truthy mapUrl then catch_all (loadSourcemap_try env code (the mapUrl) filePath)
                 else Inr None) of
             Inl e \<Rightarrow> Inl e
           | Inr (Some r) \<Rightarrow> Inr r
           | Inr None \<Rightarrow> Inr (code, None)))"

text \<open>
  \<open>mergeSourcemaps\<close>. The class \<open>SourceMapNode\<close> of \<open>@parcel/source-map\<close> is a record
  of its three operations on an abstract type of nodes: a new node with a map added,
  \<open>merged.extends(previous.toBuffer())\<close>, and \<open>toVLQ\<close>.
\<close>

record 'n SourceMapNode =
  addVLQMap :: "source_map \<Rightarrow> 'n"
  extends_with :: "'n \<Rightarrow> 'n \<Rightarrow> 'n"
  toVLQ :: "'n \<Rightarrow> source_map"

definition with_version_3 :: "source_map \<Rightarrow> source_map" where
  "with_version_3 m = m\<lparr>version := (case version m of None \<Rightarrow> Some 3 | Some v \<Rightarrow> Some v)\<rparr>"

definition strip_trailing_semicolons :: "string \<Rightarrow> string" where
  "strip_trailing_semicolons s = rev (dropWhile (\<lambda>c. c = CHR '';'') (rev s))"

definition mergeSourcemaps :: "'n SourceMapNode \<Rightarrow> source_map list \<Rightarrow> source_map option" where
  "mergeSourcemaps lib sourceMaps =
     (case foldl
             (\<lambda>sourceMap m.
                (let mergedMap =
                       addVLQMap lib ((with_version_3 m)\<lparr>mappings := strip_trailing_semicolons (mappings m)\<rparr>)
                 in case sourceMap of
                      None \<Rightarrow> Some mergedMap
                    | Some previous \<Rightarrow> Some (extends_with lib mergedMap previous)))
             None sourceMaps of
        None \<Rightarrow> None
      | Some sourceMap \<Rightarrow> Some (with_version_3 (toVLQ lib sourceMap)))"

datatype sourcemap_setting = Inline | Enabled bool

record TransformOptions =
  source :: "string option"
  sourcemap :: "sourcemap_setting option"
  sourcesContent_option :: "bool option"

record TransformResult =
  result_code :: string
  result_map :: "source_map option"
  result_loader :: "string option"
  result_target :: "string option"

text \<open>
  A transform step is called with a fresh \<open>MagicString\<close> on the text. It throws, returns
  a result, or returns nothing, and then the edit buffer it leaves gives the text
  (\<open>toString\<close>) and the map (\<open>generateMap\<close>, as JSON text, from the source name and
  whether to include the content).
\<close>

record MagicString =
  toString :: string
  generateMap :: "string option \<Rightarrow> bool option \<Rightarrow> string"

datatype callback_outcome = Result TransformResult | Void MagicString

type_synonym TransformCallback = "string \<Rightarrow> TransformOptions \<Rightarrow> js_error + callback_outcome"

definition transform ::
  "node_env \<Rightarrow> string \<Rightarrow> TransformOptions \<Rightarrow> TransformCallback \<Rightarrow> js_error + TransformResult" where
  "transform env contents options callback =
     (case callback contents options of
        Inl e \<Rightarrow> Inl e
      | Inr (Result r) \<Rightarrow> Inr r
      | Inr (Void magicCode) \<Rightarrow>
          (case parseSourcemap env (generateMap magicCode (source options) (sourcesContent_option options)) of
             Inl e \<Rightarrow> Inl e
           | Inr m \<Rightarrow>
               Inr \<lparr>result_code = toString magicCode, result_map = m,
                    result_loader = None, result_target = None\<rparr>))"

record Pipeline =
  contents :: string
  code :: string
  sourceMaps :: "source_map option list"
  target :: string
  loader :: string

definition createPipeline :: "node_env \<Rightarrow> string \<Rightarrow> string option \<Rightarrow> js_error + Pipeline" where
  "createPipeline env contents' source' =
     (case loadSourcemap env contents' source' of
        Inl e \<Rightarrow> Inl e
      | Inr (code', m) \<Rightarrow>
          Inr \<lparr>contents = contents',
               code = code',
               sourceMaps = (case m of None \<Rightarrow> [] | Some x \<Rightarrow> [Some x]),
               target = (if truthy source' \<and> (endsWith (the source') ''.ts'' \<or> endsWith (the source') ''.tsx'')
                         then ''typescript'' else ''unknown''),
               loader = (if truthy source' \<and> endsWith (the source') ''.ts'' then ''ts'' else ''tsx'')\<rparr>)"

text \<open>
  \<open>pipe\<close> changes the pipeline in place and returns nothing; here it returns the
  pipeline after the step. When the step throws, nothing has been assigned yet.
\<close>

definition pipe :: "node_env \<Rightarrow> Pipeline \<Rightarrow> TransformOptions \<Rightarrow> TransformCallback \<Rightarrow> js_error + Pipeline" where
  "pipe env pipeline options callback =
     (case transform env (code pipeline) options callback of
        Inl e \<Rightarrow> Inl e
      | Inr r \<Rightarrow>
          (let p1 = (if result_code r \<noteq> code pipeline
                     then pipeline\<lparr>sourceMaps := sourceMaps pipeline @ [result_map r], code := result_code r\<rparr>
                     else pipeline);
               p2 = (if truthy (result_loader r) then p1\<lparr>loader := the (result_loader r)\<rparr> else p1);
               p3 = (if truthy (result_target r) then p2\<lparr>target := the (result_target r)\<rparr> else p2)
           in Inr p3))"

text \<open>
  A sequence of steps, each with its options, on one pipeline; and the sequences in
  which every step returns and leaves the text of the pipeline as it was.
\<close>

fun pipe_all ::
  "node_env \<Rightarrow> Pipeline \<Rightarrow> (TransformOptions \<times> TransformCallback) list \<Rightarrow> js_error + Pipeline" where
  "pipe_all env pipeline [] = Inr pipeline"
| "pipe_all env pipeline (step # steps) =
     (case pipe env pipeline (fst step) (snd step) of
        Inl e \<Rightarrow> Inl e
      | Inr pipeline' \<Rightarrow> pipe_all env pipeline' steps)"

fun no_step_changes ::
  "node_env \<Rightarrow> Pipeline \<Rightarrow> (TransformOptions \<times> TransformCallback) list \<Rightarrow> bool" where
  "no_step_changes env pipeline [] = True"
| "no_step_changes env pipeline (step # steps) =
     (case pipe env pipeline (fst step) (snd step) of
        Inl e \<Rightarrow> False
      | Inr pipeline' \<Rightarrow> code pipeline' = code pipeline \<and> no_step_changes env pipeline' steps)"

definition inlineSourcemap :: "node_env \<Rightarrow> string \<Rightarrow> source_map \<Rightarrow> string" where
  "inlineSourcemap env code' sourceMap =
     code' @ [CHR 0x0A] @ ''//# sourceMappingURL=data:application/json;base64,''
       @ toBase64 (JSON_stringify env sourceMap)"

record FinalResult =
  final_code :: string
  final_map :: "source_map option"
  final_loader :: string

text \<open>
  \<open>finalize\<close>; \<open>sourcemap\<close> and \<open>sourcesContent\<close> default to \<open>true\<close> when absent.
\<close>

definition finalize :: "node_env \<Rightarrow> 'n SourceMapNode \<Rightarrow> Pipeline \<Rightarrow> TransformOptions \<Rightarrow> FinalResult" where
  "finalize env lib pipeline options =
     (let sourcemap' = (case sourcemap options of None \<Rightarrow> Enabled True | Some v \<Rightarrow> v);
          sourcesContent' = (case sourcesContent_option options of None \<Rightarrow> True | Some b \<Rightarrow> b)
      in
      if length (sourceMaps pipeline) < 2 \<or> code pipeline = contents pipeline \<or> sourcemap' = Enabled False
      then \<lparr>final_code = code pipeline, final_map = None, final_loader = loader pipeline\<rparr>
      else
        (case mergeSourcemaps lib (map the (filter (\<lambda>m. m \<noteq> None) (sourceMaps pipeline))) of
           None \<Rightarrow> \<lparr>final_code = code pipeline, final_map = None, final_loader = loader pipeline\<rparr>
         | Some finalMap \<Rightarrow>
             (let m1 = (if truthy (source options) then finalMap\<lparr>map_file := source options\<rparr>
                        else finalMap\<lparr>map_file := None\<rparr>);
                  m2 = (if \<not> sourcesContent' then m1\<lparr>sourcesContent := None\<rparr> else m1)
              in \<lparr>final_code = (if sourcemap' = Inline then inlineSourcemap env (code pipeline) m2
                                 else code pipeline),
                   final_map = Some m2,
                   final_loader = loader pipeline\<rparr>)))"

section \<open>Sample values\<close>

text \<open>Concrete surroundings, pipelines and steps on which the theorems are instantiated.\<close>

definition sample_map :: source_map where
  "sample_map = \<lparr>version = Some 3, sources = [], names = [], sourceRoot = None,
                  sourcesContent = None, mappings = [], map_file = None\<rparr>"

text \<open>
  A file system with the one file \<open>/w/a.js.map\<close>, and a parser that accepts the one
  text \<open>{}\<close>.
\<close>

definition sample_env :: node_env where
  "sample_env =
     \<lparr>cwd = ''/w'',
      readFile = (\<lambda>f. if f = ''/w/a.js.map'' then Inr ''{}'' else Inl IOError),
      JSON_parse = (\<lambda>t. if t = ''{}'' then Inr (Some sample_map) else Inl SyntaxError),
      JSON_stringify = (\<lambda>m. ''{}'')\<rparr>"

definition sample_lib :: "source_map SourceMapNode" where
  "sample_lib = \<lparr>addVLQMap = (\<lambda>m. m), extends_with = (\<lambda>m previous. m), toVLQ = (\<lambda>n. n)\<rparr>"

definition sample_pipeline :: Pipeline where
  "sample_pipeline = \<lparr>contents = ''let a'', code = ''let a'', sourceMaps = [None, None],
                       target = ''unknown'', loader = ''tsx''\<rparr>"

definition sample_options :: TransformOptions where
  "sample_options = \<lparr>source = Some ''a.ts'', sourcemap = None, sourcesContent_option = None\<rparr>"

text \<open>A step that edits the buffer and returns nothing, and one that returns a result.\<close>

definition sample_edit :: TransformCallback where
  "sample_edit c opts =
     Inr (Void \<lparr>toString = ''var a'', generateMap = (\<lambda>src includeContent. ''{}'')\<rparr>)"

definition sample_noop :: TransformCallback where
  "sample_noop c opts =
     Inr (Void \<lparr>toString = c, generateMap = (\<lambda>src includeContent. ''{}'')\<rparr>)"

text \<open>The pipeline that \<open>createPipeline\<close> makes of the text \<open>let a\<close> and a line feed.\<close>

definition sample_created :: Pipeline where
  "sample_created = \<lparr>contents = ''let a'' @ [CHR 0x0A], code = ''let a'', sourceMaps = [],
                      target = ''unknown'', loader = ''tsx''\<rparr>"

definition sample_result :: "string \<Rightarrow> TransformResult" where
  "sample_result c =
     \<lparr>result_code = c, result_map = None, result_loader = Some ''js'', result_target = None\<rparr>"

text \<open>
  The criterion of the chunk selection as the spec words it: the output does not end in
  \<open>.map\<close>, reports an entry point, and that entry point resolves to the path of the
  loaded file.
\<close>

definition entry_matches :: "string \<Rightarrow> string \<Rightarrow> metafile_outputs \<Rightarrow> string \<Rightarrow> bool" where
  "entry_matches wd filePath outputs output =
     (\<not> endsWith output ''.map''
      \<and> (case output_entryPoint outputs output of
            None \<Rightarrow> False
          | Some e \<Rightarrow> e \<noteq> [] \<and> path_resolve wd [e] = filePath))"

definition sample_outputs :: metafile_outputs where
  "sample_outputs =
     [(''out/a.js.map'', \<lparr>entryPoint = None\<rparr>),
      (''out/b.js'', \<lparr>entryPoint = Some ''src/b.js''\<rparr>),
      (''out/a.js'', \<lparr>entryPoint = Some ''src/a.js''\<rparr>)]"

text \<open>
  The candidate list as the spec words it: every configured extension, each followed at
  once by its underscore-prefixed partial form.
\<close>

definition paired_candidates :: "string list \<Rightarrow> string \<Rightarrow> string list" where
  "paired_candidates exts url = concat (map (\<lambda>ext. [url @ ext, CHR ''_'' # url @ ext]) exts)"

text \<open>Two resolution routines: one that always throws, one that finds a single partial.\<close>

definition never_found :: "string \<Rightarrow> string \<Rightarrow> js_error + string" where
  "never_found modCheck prev = Inl HostError"

definition sample_styleResolve :: "string \<Rightarrow> string \<Rightarrow> js_error + string" where
  "sample_styleResolve modCheck prev =
     (if modCheck = ''lib/_b.css'' then Inr ''/w/lib/_b.css'' else Inl HostError)"

text \<open>
  Loading the map that a trailer names fails: a data URI has no payload after a comma,
  the text to parse is not JSON, or the file the trailer names cannot be read.
\<close>

definition map_load_fails :: "node_env \<Rightarrow> string \<Rightarrow> string option \<Rightarrow> bool" where
  "map_load_fails env mapUrl filePath =
     (if startsWith mapUrl ''data:'' then
        (case nth_opt (split_on (CHR '','') mapUrl) 1 of
           None \<Rightarrow> True
         | Some payload \<Rightarrow> isl (parseSourcemap env (toBase64 payload)))
      else truthy filePath \<and>
        (case readFile env (path_resolve (cwd env) [path_dirname (the filePath), mapUrl]) of
           Inl e \<Rightarrow> True
         | Inr content \<Rightarrow> isl (parseSourcemap env content)))"

text \<open>A text followed by a line \<open>//# sourceMappingURL=...\<close>.\<close>

definition with_trailer :: "string \<Rightarrow> string \<Rightarrow> string" where
  "with_trailer c mapUrl = c @ [CHR 0x0A] @ ''//# sourceMappingURL='' @ mapUrl @ [CHR 0x0A]"

section \<open>The pipeline: \<open>finalize\<close> and \<open>pipe\<close>\<close>

lemma finalize_guard:
  "length (sourceMaps p) < 2 \<or> code p = contents p \<or> sourcemap options = Some (Enabled False)
   \<Longrightarrow> finalize env lib p options
       = \<lparr>final_code = code p, final_map = None, final_loader = loader p\<rparr>"
  by (auto simp: finalize_def Let_def)

text \<open>What one call of \<open>pipe\<close> leaves, when the step does not throw.\<close>

lemma pipe_result:
  assumes "transform env (code p) options callback = Inr r"
  shows "pipe env p options callback =
     Inr ((if result_code r \<noteq> code p
           then p\<lparr>sourceMaps := sourceMaps p @ [result_map r], code := result_code r\<rparr>
           else p)
          \<lparr>loader := (if truthy (result_loader r) then the (result_loader r) else loader p),
           target := (if truthy (result_target r) then the (result_target r) else target p)\<rparr>)"
  using assms by (simp add: pipe_def Let_def)

lemma pipe_throws:
  "transform env (code p) options callback = Inl e \<Longrightarrow> pipe env p options callback = Inl e"
  by (simp add: pipe_def)

text \<open>
  C4. For every pipeline, options and transform step: \<open>pipe\<close> appends a new source map to
  the pipeline's list and replaces the current text if and only if the text the step
  results in differs from the current text; a step that leaves the text unchanged adds
  nothing to the list. A step that throws makes \<open>pipe\<close> throw before it assigns
  anything.
\<close>

theorem pipe_appends_iff_changed:
  "(case transform env (code p) options callback of
      Inl e \<Rightarrow> pipe env p options callback = Inl e
    | Inr r \<Rightarrow>
        (\<exists>p'. pipe env p options callback = Inr p'
           \<and> (sourceMaps p' = sourceMaps p @ [result_map r] \<longleftrightarrow> result_code r \<noteq> code p)
           \<and> (sourceMaps p' = sourceMaps p \<longleftrightarrow> result_code r = code p)
           \<and> (result_code r \<noteq> code p \<longrightarrow> code p' = result_code r)
           \<and> (result_code r = code p \<longrightarrow> code p' = code p)))"
  by (simp add: pipe_result pipe_throws split: sum.split)

lemma sample_edit_result:
  "transform sample_env (code sample_pipeline) sample_options sample_edit
   = Inr \<lparr>result_code = ''var a'', result_map = Some sample_map,
          result_loader = None, result_target = None\<rparr>"
  by (simp add: transform_def sample_edit_def parseSourcemap_def sample_env_def)

theorem pipe_appends_iff_changed_witness:
  "\<exists>p'. pipe sample_env sample_pipeline sample_options sample_edit = Inr p'
     \<and> sourceMaps p' = [None, None, Some sample_map] \<and> code p' = ''var a''"
  using pipe_appends_iff_changed
          [of sample_env sample_pipeline sample_options sample_edit, unfolded sample_edit_result]
  by (auto simp: sample_pipeline_def)

text \<open>
  C9. For every pipeline, options and transform step whose resulting text equals the
  current text, \<open>pipe\<close> leaves the pipeline's code, original contents and list of source
  maps unchanged, and still overwrites the loader and the target whenever the result of
  the step reports them.
\<close>

theorem pipe_unchanged_text_frame:
  assumes "transform env (code p) options callback = Inr r"
      and "result_code r = code p"
  shows "\<exists>p'. pipe env p options callback = Inr p'
           \<and> code p' = code p \<and> contents p' = contents p \<and> sourceMaps p' = sourceMaps p
           \<and> loader p' = (if truthy (result_loader r) then the (result_loader r) else loader p)
           \<and> target p' = (if truthy (result_target r) then the (result_target r) else target p)"
  by (simp add: pipe_result [OF assms(1)] assms(2))

theorem pipe_unchanged_text_frame_witness:
  "\<exists>p'. pipe sample_env sample_pipeline sample_options
            (\<lambda>c opts. Inr (Result (sample_result c))) = Inr p'
     \<and> code p' = ''let a'' \<and> contents p' = ''let a'' \<and> sourceMaps p' = [None, None]
     \<and> loader p' = ''js'' \<and> target p' = ''unknown''"
  using pipe_unchanged_text_frame [of sample_env sample_pipeline sample_options
      "\<lambda>c opts. Inr (Result (sample_result c))" "sample_result ''let a''"]
  by (auto simp: transform_def sample_pipeline_def sample_result_def truthy_def)

section \<open>The emit plugin: the output of a chunk\<close>

lemma find_filter_conj: "find P (filter Q xs) = find (\<lambda>x. Q x \<and> P x) xs"
  by (induction xs) auto

text \<open>The two filters and \<open>find\<close> are one search for the first output that matches.\<close>

lemma select_output_find:
  "select_output wd filePath outputs =
     (let found = find (entry_matches wd filePath outputs) (map fst outputs)
      in if truthy found then found else nth_opt (map fst outputs) 0)"
proof -
  have "(\<lambda>output. (\<not> endsWith output ''.map'' \<and> truthy (output_entryPoint outputs output))
                  \<and> (case output_entryPoint outputs output of
                        None \<Rightarrow> False
                      | Some e \<Rightarrow> filePath = path_resolve wd [e]))
        = entry_matches wd filePath outputs"
    by (auto simp: fun_eq_iff entry_matches_def truthy_def split: option.splits)
  then show ?thesis
    by (simp add: select_output_def Let_def find_filter_conj conj_assoc)
qed

text \<open>
  C1. After the recursive build returned a metafile, the output selected is, among the
  outputs that do not end in \<open>.map\<close> and report an entry point, the (first) one whose
  entry point resolves to the path of the loaded file; if no output matches, the first
  key of the outputs is selected instead (\<open>undefined\<close> when there is none). Output
  paths are not empty: they are paths of files the build wrote.
\<close>

theorem select_output_matching_entry:
  assumes "[] \<notin> set (map fst outputs)"
  shows "(\<forall>i < length outputs.
            entry_matches wd filePath outputs (fst (outputs ! i))
            \<and> (\<forall>j < i. \<not> entry_matches wd filePath outputs (fst (outputs ! j)))
            \<longrightarrow> select_output wd filePath outputs = Some (fst (outputs ! i)))
       \<and> ((\<forall>output \<in> set (map fst outputs). \<not> entry_matches wd filePath outputs output)
            \<longrightarrow> select_output wd filePath outputs = nth_opt (map fst outputs) 0)"
proof (intro conjI allI impI)
  fix i
  assume i: "i < length outputs"
    and m: "entry_matches wd filePath outputs (fst (outputs ! i))
            \<and> (\<forall>j < i. \<not> entry_matches wd filePath outputs (fst (outputs ! j)))"
  have "find (entry_matches wd filePath outputs) (map fst outputs) = Some (fst (outputs ! i))"
    unfolding find_Some_iff using i m by (intro exI [of _ i]) simp
  moreover have "fst (outputs ! i) \<noteq> []"
    using assms i by (metis length_map nth_map nth_mem)
  ultimately show "select_output wd filePath outputs = Some (fst (outputs ! i))"
    by (simp add: select_output_find truthy_def)
next
  assume "\<forall>output \<in> set (map fst outputs). \<not> entry_matches wd filePath outputs output"
  then have "find (entry_matches wd filePath outputs) (map fst outputs) = None"
    by (simp add: find_None_iff)
  then show "select_output wd filePath outputs = nth_opt (map fst outputs) 0"
    by (simp add: select_output_find truthy_def)
qed

lemma sample_outputs_a:
  "entry_matches ''/w'' ''/w/src/a.js'' sample_outputs ''out/a.js''
   \<and> \<not> entry_matches ''/w'' ''/w/src/a.js'' sample_outputs ''out/b.js''
   \<and> \<not> entry_matches ''/w'' ''/w/src/a.js'' sample_outputs ''out/a.js.map''"
  by code_simp

lemma sample_outputs_c:
  "\<not> entry_matches ''/w'' ''/w/src/c.js'' sample_outputs ''out/a.js''
   \<and> \<not> entry_matches ''/w'' ''/w/src/c.js'' sample_outputs ''out/b.js''
   \<and> \<not> entry_matches ''/w'' ''/w/src/c.js'' sample_outputs ''out/a.js.map''"
  by code_simp

theorem select_output_matching_entry_witness:
  "select_output ''/w'' ''/w/src/a.js'' sample_outputs = Some ''out/a.js''
   \<and> select_output ''/w'' ''/w/src/c.js'' sample_outputs = Some ''out/a.js.map''"
proof -
  have ne: "[] \<notin> set (map fst sample_outputs)"
    by (simp add: sample_outputs_def)
  have lt2: "\<And>j::nat. j < 2 \<longleftrightarrow> j = 0 \<or> j = 1"
    by auto
  have a: "select_output ''/w'' ''/w/src/a.js'' sample_outputs = Some ''out/a.js''"
    using select_output_matching_entry [OF ne, of "''/w''" "''/w/src/a.js''"] sample_outputs_a
    by (auto simp: sample_outputs_def lt2 dest!: spec [of _ 2])
  have c: "select_output ''/w'' ''/w/src/c.js'' sample_outputs = Some ''out/a.js.map''"
    using select_output_matching_entry [OF ne, of "''/w''" "''/w/src/c.js''"] sample_outputs_c
    by (simp add: sample_outputs_def nth_opt_def)
  from a c show ?thesis by simp
qed

text \<open>
  Why the output paths are taken not to be empty: \<open>find(...) || outputFiles[0]\<close> takes an
  empty path that \<open>find\<close> returns for no match, and falls back to the first key.
\<close>

lemma select_output_empty_path:
  "select_output ''/w'' ''/w/src/a.js''
     [(''out/b.js'', \<lparr>entryPoint = Some ''src/b.js''\<rparr>), ([], \<lparr>entryPoint = Some ''src/a.js''\<rparr>)]
   = Some ''out/b.js''"
  by code_simp

text \<open>The load hook returns the bytes of the selected file, with the loader \<open>file\<close>.\<close>

lemma onLoad_selected_file:
  assumes "build (chunk_config options pluginData filePath dir) = Inr \<lparr>metafile = Some outputs\<rparr>"
      and "select_output wd filePath outputs = Some f"
      and "read f = Inr bytes"
  shows "onLoad build read wd options dir filePath pluginData
         = Inr \<lparr>load_contents = bytes, load_loader = ''file''\<rparr>"
  using assms by (simp add: onLoad_def)

section \<open>The stylesheet resolver\<close>

lemma length_split_on: "length (split_on c s) = Suc (count_list s c)"
  by (induction s) (auto split: list.splits)

lemma alternatives_plain_then_partial:
  assumes "path_extname url = []" and "nth_opt (path_basename url) 0 \<noteq> Some (CHR ''_'')"
  shows "alternatives exts url
         = map (\<lambda>ext. url @ ext) exts @ map (\<lambda>ext. partial_name (url @ ext)) exts"
  using assms by (simp add: alternatives_def Let_def comp_def)

text \<open>The candidates are tried in the order of the list, up to the first that is found.\<close>

lemma try_candidates_first_hit:
  assumes "\<forall>c \<in> set before. isl (styleResolve c prev)"
      and "styleResolve c prev = Inr found" and "found \<noteq> []"
  shows "try_candidates styleResolve prev (before @ c # rest) url = found"
  using assms by (induction before) (auto split: sum.splits)

lemma try_candidates_all_throw:
  "\<forall>c \<in> set cands. isl (styleResolve c prev) \<Longrightarrow> try_candidates styleResolve prev cands url = url"
  by (induction cands) (auto split: sum.splits)

text \<open>
  C2, as the spec has it, fails: the resolver tries a bare import \<open>foo\<close> only as it is,
  and \<open>alternatives\<close> lists all plain names before all partial names.
\<close>

theorem bare_import_candidates_counterexample:
  "toCheck [''.css'', ''.scss''] ''foo'' = [''foo'']
   \<and> alternatives [''.css'', ''.scss''] ''foo'' = [''foo.css'', ''foo.scss'', ''_foo.css'', ''_foo.scss'']
   \<and> paired_candidates [''.css'', ''.scss''] ''foo'' = [''foo.css'', ''_foo.css'', ''foo.scss'', ''_foo.scss'']
   \<and> toCheck [''.css'', ''.scss''] ''foo'' \<noteq> paired_candidates [''.css'', ''.scss''] ''foo''
   \<and> alternatives [''.css'', ''.scss''] ''foo'' \<noteq> paired_candidates [''.css'', ''.scss''] ''foo''"
  by code_simp

text \<open>
  C2, amended. An import of a single segment (no \<open>/\<close>), or of the two segments of a
  scoped package (\<open>@scope/name\<close>), is tried only as it is. Any other import with no
  extension, whose base name does not start with \<open>_\<close>, is tried with every configured
  extension appended, in the configured order, and then as the underscore-prefixed
  partial of each of these names, in the same order: all plain names first, then all
  partial names.
\<close>

theorem toCheck_candidates:
  "(count_list url (CHR ''/'') = 0
      \<or> (nth_opt url 0 = Some (CHR ''@'') \<and> count_list url (CHR ''/'') = 1)
    \<longrightarrow> toCheck exts url = [url])
   \<and> (count_list url (CHR ''/'') \<noteq> 0
      \<and> \<not> (nth_opt url 0 = Some (CHR ''@'') \<and> count_list url (CHR ''/'') = 1)
      \<and> path_extname url = [] \<and> nth_opt (path_basename url) 0 \<noteq> Some (CHR ''_'')
    \<longrightarrow> toCheck exts url
        = map (\<lambda>ext. url @ ext) exts @ map (\<lambda>ext. partial_name (url @ ext)) exts)"
  by (auto simp: toCheck_def Let_def length_split_on alternatives_plain_then_partial)

lemma sample_lib_foo:
  "count_list ''lib/foo'' (CHR ''/'') = 1 \<and> nth_opt ''lib/foo'' 0 = Some (CHR ''l'')
   \<and> path_extname ''lib/foo'' = [] \<and> nth_opt (path_basename ''lib/foo'') 0 = Some (CHR ''f'')
   \<and> partial_name ''lib/foo.css'' = ''lib/_foo.css'' \<and> partial_name ''lib/foo.scss'' = ''lib/_foo.scss''
   \<and> count_list ''foo'' (CHR ''/'') = 0"
  by code_simp

theorem toCheck_candidates_witness:
  "toCheck [''.css'', ''.scss''] ''lib/foo''
     = [''lib/foo.css'', ''lib/foo.scss'', ''lib/_foo.css'', ''lib/_foo.scss'']
   \<and> toCheck [''.css'', ''.scss''] ''foo'' = [''foo'']"
  using toCheck_candidates [of "''lib/foo''" "[''.css'', ''.scss'']"]
    toCheck_candidates [of "''foo''" "[''.css'', ''.scss'']"] sample_lib_foo
  by simp

text \<open>
  The result of the \<open>j\<close>-th call of a sequence on one instance, from any list of paths
  resolved before.
\<close>

lemma resolver_calls_nth:
  "j < length calls \<Longrightarrow>
   resolver_calls exts styleResolve resolved calls ! j =
     (let u = resolve_url exts styleResolve (fst (calls ! j)) (snd (calls ! j)) in
      if u \<in> set resolved
           \<union> set (map (\<lambda>c. resolve_url exts styleResolve (fst c) (snd c)) (take j calls))
      then Contents [] else File u)"
proof (induction calls arbitrary: resolved j)
  case Nil
  then show ?case by simp
next
  case (Cons c calls)
  obtain url prev where c: "c = (url, prev)" by (cases c)
  show ?case
  proof (cases j)
    case 0
    then show ?thesis by (simp add: c nodeResolver_def Let_def)
  next
    case (Suc k)
    with Cons.prems have k: "k < length calls" by simp
    show ?thesis
      using Cons.IH [OF k] by (auto simp: c Suc nodeResolver_def Let_def)
  qed
qed

text \<open>
  C5. On one resolver instance, a call returns the resolved file when no earlier call
  of the instance resolved to the same path, and empty contents when an earlier call
  did: the first call that resolves to a path returns that file, every later call that
  resolves to it returns empty contents.
\<close>

theorem resolver_dedupe:
  "\<forall>j < length calls.
     resolver_calls exts styleResolve [] calls ! j =
       (if resolve_url exts styleResolve (fst (calls ! j)) (snd (calls ! j))
             \<in> set (map (\<lambda>c. resolve_url exts styleResolve (fst c) (snd c)) (take j calls))
        then Contents []
        else File (resolve_url exts styleResolve (fst (calls ! j)) (snd (calls ! j))))"
  by (simp add: resolver_calls_nth Let_def)

lemma sample_calls_resolve:
  "map (\<lambda>c. resolve_url [''.css''] sample_styleResolve (fst c) (snd c))
     [(''lib/b'', ''/w/main.scss''), (''c'', ''/w/main.scss''), (''~lib/b'', ''/w/other.scss'')]
   = [''/w/lib/_b.css'', ''c'', ''/w/lib/_b.css'']"
  by code_simp

theorem resolver_dedupe_witness:
  "resolver_calls [''.css''] sample_styleResolve []
     [(''lib/b'', ''/w/main.scss''), (''c'', ''/w/main.scss''), (''~lib/b'', ''/w/other.scss'')] ! 0
     = File ''/w/lib/_b.css''
   \<and> resolver_calls [''.css''] sample_styleResolve []
     [(''lib/b'', ''/w/main.scss''), (''c'', ''/w/main.scss''), (''~lib/b'', ''/w/other.scss'')] ! 2
     = Contents []"
  using resolver_dedupe [of "[(''lib/b'', ''/w/main.scss''), (''c'', ''/w/main.scss''), (''~lib/b'', ''/w/other.scss'')]"
      "[''.css'']" sample_styleResolve] sample_calls_resolve
  by (auto dest!: spec)

text \<open>
  C8, as the spec has it, fails: when every candidate throws, the caller of
  \<open>~foo/bar\<close> receives \<open>foo/bar\<close>, not the import it gave, and a second unresolved
  \<open>foo/bar\<close> on the same instance receives empty contents.
\<close>

theorem nodeResolver_unresolved_counterexample:
  "fst (nodeResolver [''.css''] never_found [] ''~foo/bar'' ''/w/main.scss'') = File ''foo/bar''
   \<and> fst (nodeResolver [''.css''] never_found [] ''~foo/bar'' ''/w/main.scss'') \<noteq> File ''~foo/bar''
   \<and> fst (nodeResolver [''.css''] never_found [''foo/bar''] ''foo/bar'' ''/w/main.scss'') = Contents []
   \<and> fst (nodeResolver [''.css''] never_found [''foo/bar''] ''foo/bar'' ''/w/main.scss'') \<noteq> File ''foo/bar''"
  by code_simp

text \<open>
  C8, amended. When every candidate throws, the resolver does not throw; the import is
  left unresolved, with a leading \<open>~\<close> or \<open>package:\<close> removed, and the caller receives
  it as the file, unless the instance has recorded the same string before, and then the
  caller receives empty contents.
\<close>

theorem nodeResolver_all_candidates_throw:
  assumes "\<forall>c \<in> set (toCheck exts (strip_module_prefix url)). isl (styleResolve c prev)"
  shows "nodeResolver exts styleResolve resolved url prev =
     (if strip_module_prefix url \<in> set resolved then (Contents [], resolved)
      else (File (strip_module_prefix url), resolved @ [strip_module_prefix url]))"
  using assms
  by (simp add: nodeResolver_def resolve_url_def Let_def try_candidates_all_throw)

theorem nodeResolver_all_candidates_throw_witness:
  "nodeResolver [''.css''] never_found [] ''~foo/bar'' ''/w/main.scss''
     = (File ''foo/bar'', [''foo/bar''])
   \<and> nodeResolver [''.css''] never_found [''foo/bar''] ''foo/bar'' ''/w/main.scss''
     = (Contents [], [''foo/bar''])"
  using nodeResolver_all_candidates_throw
          [of "[''.css'']" "''~foo/bar''" never_found "''/w/main.scss''" "[]"]
        nodeResolver_all_candidates_throw
          [of "[''.css'']" "''foo/bar''" never_found "''/w/main.scss''" "[''foo/bar'']"]
  by (simp add: never_found_def strip_module_prefix_def startsWith_def)

section \<open>The emit plugin: the markers\<close>

text \<open>
  C6. Applying \<open>emitFile\<close> to a path that already carries an \<open>emit\<close> parameter returns
  the path unchanged, so \<open>emitFile\<close> is idempotent. The helpers are arguments; of them
  the proof uses that the \<open>emit\<close> parameter appended to the path is then found on it.
\<close>

theorem emitFile_idempotent:
  assumes "has_param (append_param p ''emit'' ''file'') ''emit''"
  shows "(has_param p ''emit'' \<longrightarrow> emitFile has_param append_param p = p)
         \<and> emitFile has_param append_param (emitFile has_param append_param p)
           = emitFile has_param append_param p"
  using assms by (simp add: emitFile_def)

lemma sample_markers:
  "hasSearchParam (appendSearchParam ''a.js'' ''emit'' ''file'') ''emit''
   \<and> hasSearchParam ''a.js?emit=chunk'' ''emit''
   \<and> hasSearchParam (appendSearchParam ''a.js?emit=chunk'' ''emit'' ''file'') ''emit''
   \<and> emitFile hasSearchParam appendSearchParam ''a.js'' = ''a.js?emit=file''"
  by code_simp

theorem emitFile_idempotent_witness:
  "emitFile hasSearchParam appendSearchParam ''a.js?emit=chunk'' = ''a.js?emit=chunk''
   \<and> emitFile hasSearchParam appendSearchParam (emitFile hasSearchParam appendSearchParam ''a.js'')
     = ''a.js?emit=file''"
  using emitFile_idempotent [of hasSearchParam appendSearchParam "''a.js''"]
    emitFile_idempotent [of hasSearchParam appendSearchParam "''a.js?emit=chunk''"]
    sample_markers
  by simp

text \<open>
  The helpers as modelled from the spec meet the contract on every path, so with them
  \<open>emitFile\<close> is idempotent with no condition.
\<close>

lemma split_on_head: "\<exists>ys. split_on c s = takeWhile (\<lambda>x. x \<noteq> c) s # ys"
  by (induction s) auto

lemma split_on_not_Nil: "split_on c s \<noteq> []"
  by (induction s) (auto split: list.splits)

lemma split_on_append: "split_on c (a @ c # r) = split_on c a @ split_on c r"
  by (induction a) (auto simp: split_on_not_Nil split: list.splits)

lemma takeWhile_in_split_on: "takeWhile (\<lambda>y. y \<noteq> c) x \<in> set (split_on c x)"
  using split_on_head [of c x] by auto

lemma takeWhile_in_split_join:
  "x \<in> set xs \<Longrightarrow> takeWhile (\<lambda>y. y \<noteq> c) x \<in> set (split_on c (join_with [c] xs))"
proof (induction xs)
  case Nil
  then show ?case by simp
next
  case (Cons y ys)
  show ?case
  proof (cases ys)
    case Nil
    with Cons.prems show ?thesis by (simp add: takeWhile_in_split_on)
  next
    case (Cons z zs)
    have j: "join_with [c] (y # ys) = y @ c # join_with [c] ys"
      by (simp add: Cons)
    show ?thesis
    proof (cases "x = y")
      case True
      then show ?thesis
        unfolding j split_on_append by (simp add: takeWhile_in_split_on)
    next
      case False
      with Cons.prems have "x \<in> set ys" by simp
      then show ?thesis
        unfolding j split_on_append using Cons.IH by simp
    qed
  qed
qed

lemma set_param_has: "(k, v) \<in> set (set_param k v kvs)"
  by (induction kvs) auto

lemma hasSearchParam_query:
  assumes "CHR ''?'' \<in> set s"
      and "kv \<in> set (split_on (CHR ''&'') (drop 1 (dropWhile (\<lambda>c. c \<noteq> CHR ''?'') s)))"
      and "kv \<noteq> []" and "takeWhile (\<lambda>c. c \<noteq> CHR ''='') kv = k"
  shows "hasSearchParam s k"
  using assms by (force simp: hasSearchParam_def searchParams_def)

lemma hasSearchParam_append:
  "hasSearchParam (appendSearchParam s ''emit'' v) ''emit''"
proof -
  let ?path = "takeWhile (\<lambda>c. c \<noteq> CHR ''?'') s"
  let ?xs = "map (\<lambda>kv. fst kv @ ''='' @ snd kv)
               (set_param ''emit'' (url_encode v) (searchParams s))"
  let ?q = "join_with ''&'' ?xs"
  let ?x = "''emit='' @ url_encode v"
  let ?kv = "''emit='' @ takeWhile (\<lambda>y. y \<noteq> CHR ''&'') (url_encode v)"
  have "(''emit'', url_encode v) \<in> set (set_param ''emit'' (url_encode v) (searchParams s))"
    by (rule set_param_has)
  then have "?x \<in> set ?xs"
    by force
  then have "takeWhile (\<lambda>y. y \<noteq> CHR ''&'') ?x \<in> set (split_on (CHR ''&'') ?q)"
    by (rule takeWhile_in_split_join)
  then have kv: "?kv \<in> set (split_on (CHR ''&'') ?q)"
    by simp
  have r: "appendSearchParam s ''emit'' v = ?path @ CHR ''?'' # ?q"
    by (simp add: appendSearchParam_def)
  have "\<And>y. y \<in> set ?path \<Longrightarrow> y \<noteq> CHR ''?''"
    by (auto dest: set_takeWhileD)
  then have "dropWhile (\<lambda>c. c \<noteq> CHR ''?'') (?path @ CHR ''?'' # ?q) = CHR ''?'' # ?q"
    by (simp add: dropWhile_append2)
  then have q: "drop 1 (dropWhile (\<lambda>c. c \<noteq> CHR ''?'') (appendSearchParam s ''emit'' v)) = ?q"
    unfolding r by simp
  have "CHR ''?'' \<in> set (appendSearchParam s ''emit'' v)"
    unfolding r by simp
  moreover have "takeWhile (\<lambda>c. c \<noteq> CHR ''='') ?kv = ''emit''"
    by simp
  ultimately show ?thesis
    using kv q by (intro hasSearchParam_query [where kv = ?kv]) simp_all
qed

lemma emitFile_idempotent_modelled_helpers:
  "emitFile hasSearchParam appendSearchParam (emitFile hasSearchParam appendSearchParam p)
   = emitFile hasSearchParam appendSearchParam p"
  by (simp add: emitFile_def hasSearchParam_append)

section \<open>Loading the source map of the input\<close>

lemma map_load_fails_iff:
  "map_load_fails env mapUrl filePath \<longleftrightarrow> isl (loadSourcemap_try env c mapUrl filePath)"
  by (auto simp: map_load_fails_def loadSourcemap_try_def split: option.splits sum.splits)

lemma loadSourcemap_try_code:
  "loadSourcemap_try env c mapUrl filePath = Inr (Some r) \<Longrightarrow> fst r = c"
  by (auto simp: loadSourcemap_try_def split: option.splits sum.splits if_splits)

lemma loadSourcemap_total:
  "\<exists>m. loadSourcemap env contents' filePath = Inr (fst (split_sourceMappingURL contents'), m)"
proof (cases "split_sourceMappingURL contents'")
  case (Pair c mapUrl)
  show ?thesis
  proof (cases "truthy mapUrl")
    case False
    with Pair show ?thesis by (simp add: loadSourcemap_def)
  next
    case True
    show ?thesis
    proof (cases "loadSourcemap_try env c (the mapUrl) filePath")
      case (Inl e)
      with Pair True show ?thesis by (simp add: loadSourcemap_def catch_all_def)
    next
      case (Inr r)
      show ?thesis
      proof (cases r)
        case None
        with Pair True Inr show ?thesis by (simp add: loadSourcemap_def catch_all_def)
      next
        case (Some cm)
        with Inr have "fst cm = c" using loadSourcemap_try_code by blast
        with Pair True Inr Some show ?thesis
          by (cases cm) (simp add: loadSourcemap_def catch_all_def)
      qed
    qed
  qed
qed

lemma loadSourcemap_failure:
  assumes "split_sourceMappingURL contents' = (c, Some mapUrl)" and "mapUrl \<noteq> []"
      and "map_load_fails env mapUrl filePath"
  shows "loadSourcemap env contents' filePath = Inr (c, None)"
proof -
  from assms(3) obtain e where "loadSourcemap_try env c mapUrl filePath = Inl e"
    unfolding map_load_fails_iff [of env mapUrl filePath c] by (auto simp: isl_def)
  with assms(1,2) show ?thesis
    by (simp add: loadSourcemap_def catch_all_def truthy_def)
qed

text \<open>
  C7. For every input and file path, \<open>loadSourcemap\<close> does not raise; when loading the
  map of the input fails (a data URI without payload, text that does not parse, a file
  that cannot be read), it returns the code with a null map, and the pipeline starts
  with no map, as if the input had none.
\<close>

theorem loadSourcemap_swallows_failures:
  "\<not> isl (loadSourcemap env contents' filePath)
   \<and> (\<forall>c mapUrl. split_sourceMappingURL contents' = (c, Some mapUrl) \<and> mapUrl \<noteq> []
         \<and> map_load_fails env mapUrl filePath
       \<longrightarrow> loadSourcemap env contents' filePath = Inr (c, None)
           \<and> (\<exists>p. createPipeline env contents' filePath = Inr p
                    \<and> code p = c \<and> sourceMaps p = []))"
proof (intro conjI allI impI)
  show "\<not> isl (loadSourcemap env contents' filePath)"
    using loadSourcemap_total [of env contents' filePath] by auto
next
  fix c mapUrl
  assume a: "split_sourceMappingURL contents' = (c, Some mapUrl) \<and> mapUrl \<noteq> []
             \<and> map_load_fails env mapUrl filePath"
  then show "loadSourcemap env contents' filePath = Inr (c, None)"
    using loadSourcemap_failure by blast
  with a show "\<exists>p. createPipeline env contents' filePath = Inr p \<and> code p = c \<and> sourceMaps p = []"
    by (simp add: createPipeline_def)
qed

lemma sample_trailers:
  "split_sourceMappingURL (with_trailer ''let a'' ''data:application/json;base64,e30='')
     = (''let a'', Some ''data:application/json;base64,e30='')
   \<and> map_load_fails sample_env ''data:application/json;base64,e30='' (Some ''/w/a.js'')
   \<and> split_sourceMappingURL (with_trailer ''let a'' ''data:application/json'')
     = (''let a'', Some ''data:application/json'')
   \<and> map_load_fails sample_env ''data:application/json'' (Some ''/w/a.js'')
   \<and> split_sourceMappingURL (with_trailer ''let a'' ''b.js.map'')
     = (''let a'', Some ''b.js.map'')
   \<and> map_load_fails sample_env ''b.js.map'' (Some ''/w/a.js'')"
  by code_simp

theorem loadSourcemap_swallows_failures_witness:
  "loadSourcemap sample_env (with_trailer ''let a'' ''data:application/json;base64,e30='') (Some ''/w/a.js'')
     = Inr (''let a'', None)
   \<and> loadSourcemap sample_env (with_trailer ''let a'' ''data:application/json'') (Some ''/w/a.js'')
     = Inr (''let a'', None)
   \<and> loadSourcemap sample_env (with_trailer ''let a'' ''b.js.map'') (Some ''/w/a.js'')
     = Inr (''let a'', None)"
proof -
  have ne: "''data:application/json;base64,e30='' \<noteq> []" "''data:application/json'' \<noteq> []"
    "''b.js.map'' \<noteq> []"
    by simp_all
  have "loadSourcemap sample_env (with_trailer ''let a'' ''data:application/json;base64,e30='')
          (Some ''/w/a.js'') = Inr (''let a'', None)"
    using loadSourcemap_swallows_failures
            [of sample_env "with_trailer ''let a'' ''data:application/json;base64,e30=''" "Some ''/w/a.js''"]
          sample_trailers ne(1)
    by blast
  moreover have "loadSourcemap sample_env (with_trailer ''let a'' ''data:application/json'')
          (Some ''/w/a.js'') = Inr (''let a'', None)"
    using loadSourcemap_swallows_failures
            [of sample_env "with_trailer ''let a'' ''data:application/json''" "Some ''/w/a.js''"]
          sample_trailers ne(2)
    by blast
  moreover have "loadSourcemap sample_env (with_trailer ''let a'' ''b.js.map'')
          (Some ''/w/a.js'') = Inr (''let a'', None)"
    using loadSourcemap_swallows_failures
            [of sample_env "with_trailer ''let a'' ''b.js.map''" "Some ''/w/a.js''"]
          sample_trailers ne(3)
    by blast
  ultimately show ?thesis by blast
qed

text \<open>A map file that is there and parses is loaded.\<close>

lemma loadSourcemap_reads_map_file:
  "loadSourcemap sample_env (with_trailer ''let a'' ''a.js.map'') (Some ''/w/a.js'')
   = Inr (''let a'', Some sample_map)"
  by code_simp

section \<open>Pipelines whose steps leave the text as it is\<close>

text \<open>
  \<open>createPipeline\<close> starts with at most one map, and with the text of the input up to
  its trailer, trailing white space removed. A step that leaves the text as it is leaves
  the list of maps and the contents.
\<close>

lemma createPipeline_start:
  assumes "createPipeline env c src = Inr p"
  shows "contents p = c \<and> code p = before_marker (trimEnd c) \<and> length (sourceMaps p) \<le> 1"
proof -
  obtain m where "loadSourcemap env c src = Inr (fst (split_sourceMappingURL c), m)"
    using loadSourcemap_total by blast
  with assms show ?thesis
    by (auto simp: createPipeline_def split_sourceMappingURL_def Let_def split: option.splits)
qed

lemma pipe_same_text_same_maps:
  assumes "pipe env p options callback = Inr p'" and "code p' = code p"
  shows "sourceMaps p' = sourceMaps p \<and> contents p' = contents p"
  using assms by (auto simp: pipe_def Let_def split: sum.splits if_splits)

lemma pipe_all_unchanged:
  "no_step_changes env p steps \<Longrightarrow>
   \<exists>p'. pipe_all env p steps = Inr p' \<and> code p' = code p
        \<and> sourceMaps p' = sourceMaps p \<and> contents p' = contents p"
proof (induction steps arbitrary: p)
  case Nil
  then show ?case by simp
next
  case (Cons step steps)
  from Cons.prems obtain q where q: "pipe env p (fst step) (snd step) = Inr q"
    and c: "code q = code p" and rest: "no_step_changes env q steps"
    by (auto split: sum.splits)
  from Cons.IH [OF rest] obtain p' where "pipe_all env q steps = Inr p'" "code p' = code q"
    "sourceMaps p' = sourceMaps q" "contents p' = contents q"
    by blast
  with q c pipe_same_text_same_maps [OF q c] show ?case
    by simp
qed

text \<open>
  C3, amended. For every pipeline and options: if the pipeline has collected fewer than
  two source maps, or its current text equals its original text, or map generation is
  disabled in the options, then \<open>finalize\<close> returns the current text unchanged together
  with a null map. In particular, for a pipeline made by \<open>createPipeline\<close> in which no
  step changed the text, \<open>finalize\<close> returns with a null map the text the pipeline
  started with: the original text up to its \<open>sourceMappingURL\<close> trailer, with the
  white space at its end removed.
\<close>

theorem finalize_returns_text_without_map:
  "(length (sourceMaps p) < 2 \<or> code p = contents p \<or> sourcemap options = Some (Enabled False)
      \<longrightarrow> finalize env lib p options
          = \<lparr>final_code = code p, final_map = None, final_loader = loader p\<rparr>)
   \<and> (createPipeline env c src = Inr created \<and> no_step_changes env created steps
      \<longrightarrow> (\<exists>p'. pipe_all env created steps = Inr p' \<and> contents p' = c
               \<and> final_code (finalize env lib p' options) = before_marker (trimEnd c)
               \<and> final_map (finalize env lib p' options) = None))"
proof (intro conjI impI)
  assume "length (sourceMaps p) < 2 \<or> code p = contents p
          \<or> sourcemap options = Some (Enabled False)"
  then show "finalize env lib p options
             = \<lparr>final_code = code p, final_map = None, final_loader = loader p\<rparr>"
    by (rule finalize_guard)
next
  assume a: "createPipeline env c src = Inr created \<and> no_step_changes env created steps"
  then have start: "contents created = c" "code created = before_marker (trimEnd c)"
    "length (sourceMaps created) \<le> 1"
    using createPipeline_start by blast+
  from a obtain p' where p': "pipe_all env created steps = Inr p'" "code p' = code created"
    "sourceMaps p' = sourceMaps created" "contents p' = contents created"
    using pipe_all_unchanged by blast
  then have "length (sourceMaps p') < 2"
    using start(3) by simp
  then have "finalize env lib p' options
             = \<lparr>final_code = code p', final_map = None, final_loader = loader p'\<rparr>"
    by (simp add: finalize_guard)
  with p' start show "\<exists>p'. pipe_all env created steps = Inr p' \<and> contents p' = c
               \<and> final_code (finalize env lib p' options) = before_marker (trimEnd c)
               \<and> final_map (finalize env lib p' options) = None"
    by simp
qed

lemma sample_created_facts:
  "createPipeline sample_env (''let a'' @ [CHR 0x0A]) None = Inr sample_created
   \<and> before_marker (trimEnd (''let a'' @ [CHR 0x0A])) = ''let a''"
  by code_simp

lemma sample_noop_step:
  "pipe sample_env sample_created sample_options sample_noop = Inr sample_created"
  by (simp add: pipe_def transform_def sample_noop_def parseSourcemap_def sample_env_def
      sample_created_def Let_def truthy_def)

theorem finalize_returns_text_without_map_witness:
  "final_code (finalize sample_env sample_lib sample_pipeline sample_options) = ''let a''
   \<and> final_map (finalize sample_env sample_lib sample_pipeline sample_options) = None
   \<and> (\<exists>p'. pipe_all sample_env sample_created [(sample_options, sample_noop)] = Inr p'
          \<and> contents p' = ''let a'' @ [CHR 0x0A]
          \<and> final_code (finalize sample_env sample_lib p' sample_options) = ''let a''
          \<and> final_map (finalize sample_env sample_lib p' sample_options) = None)"
proof -
  have n: "no_step_changes sample_env sample_created [(sample_options, sample_noop)]"
    by (simp add: sample_noop_step)
  have "length (sourceMaps sample_pipeline) < 2 \<or> code sample_pipeline = contents sample_pipeline
        \<or> sourcemap sample_options = Some (Enabled False)"
    by (simp add: sample_pipeline_def)
  then have "finalize sample_env sample_lib sample_pipeline sample_options
             = \<lparr>final_code = code sample_pipeline, final_map = None,
                final_loader = loader sample_pipeline\<rparr>"
    using finalize_returns_text_without_map
            [where p = sample_pipeline and options = sample_options and env = sample_env
               and lib = sample_lib]
    by blast
  moreover have "\<exists>p'. pipe_all sample_env sample_created [(sample_options, sample_noop)] = Inr p'
          \<and> contents p' = ''let a'' @ [CHR 0x0A]
          \<and> final_code (finalize sample_env sample_lib p' sample_options) = ''let a''
          \<and> final_map (finalize sample_env sample_lib p' sample_options) = None"
    using finalize_returns_text_without_map
            [where options = sample_options and env = sample_env and lib = sample_lib
               and c = "''let a'' @ [CHR 0x0A]" and src = None and created = sample_created
               and steps = "[(sample_options, sample_noop)]"]
          sample_created_facts n
    by simp
  ultimately show ?thesis
    by (simp add: sample_pipeline_def)
qed

text \<open>
  C3, as the spec has it, fails in its second sentence: the pipeline made of \<open>let a\<close>
  and a line feed starts with the text \<open>let a\<close>; a step that changes nothing leaves it
  so, and \<open>finalize\<close> returns \<open>let a\<close>, which is not the original text.
\<close>

theorem finalize_original_text_counterexample:
  "createPipeline sample_env (''let a'' @ [CHR 0x0A]) None = Inr sample_created
   \<and> pipe_all sample_env sample_created [(sample_options, sample_noop)] = Inr sample_created
   \<and> code sample_created = ''let a''
   \<and> contents sample_created = ''let a'' @ [CHR 0x0A]
   \<and> final_code (finalize sample_env sample_lib sample_created sample_options) = ''let a''
   \<and> final_code (finalize sample_env sample_lib sample_created sample_options)
       \<noteq> contents sample_created"
proof -
  have "final_code (finalize sample_env sample_lib sample_created sample_options) = ''let a''"
    by (simp add: finalize_guard sample_created_def)
  then show ?thesis
    using sample_created_facts by (simp add: sample_noop_step) (simp add: sample_created_def)
qed

section \<open>The emit plugin: \<open>emitChunk\<close>\<close>






end
